theory Spec2Isabelle
  imports Complex_Main "HOL-Library.Multiset"
begin

section \<open>Text primitives of the Python runtime\<close>

text \<open>
  A Python \<open>str\<close> is a sequence of Unicode code points: \<open>len\<close>, slicing, \<open>strip\<close> and the
  regular expressions of \<open>re\<close> all count code points. A character is therefore modelled
  as its code point and a string as a list of code points.
\<close>

type_synonym uchar = nat
type_synonym ustring = "nat list"

text \<open>
  The whitespace class of \<open>str.strip()\<close> and of \<open>\s\<close> in a \<open>str\<close> pattern
  (\<open>str.isspace\<close>): TAB..CR, FS..US, SPACE, NEL, NBSP, U+1680, U+2000..U+200A, U+2028,
  U+2029, U+202F, U+205F and the ideographic space U+3000.
\<close>

definition isspace :: "uchar \<Rightarrow> bool" where
  "isspace c \<longleftrightarrow>
     (9 \<le> c \<and> c \<le> 13) \<or> (28 \<le> c \<and> c \<le> 32) \<or> c = 133 \<or> c = 160 \<or> c = 5760 \<or>
     (8192 \<le> c \<and> c \<le> 8202) \<or> c = 8232 \<or> c = 8233 \<or> c = 8239 \<or> c = 8287 \<or> c = 12288"

text \<open>\<open>c.isalpha() and c.isascii()\<close>: the ASCII letters A..Z and a..z.\<close>

definition ascii_alpha :: "uchar \<Rightarrow> bool" where
  "ascii_alpha c \<longleftrightarrow> (65 \<le> c \<and> c \<le> 90) \<or> (97 \<le> c \<and> c \<le> 122)"

text \<open>
  The class \<open>\d\<close> of a \<open>str\<close> pattern is the Unicode decimal digits (category Nd) of the
  interpreter's Unicode database, which is no part of the repository: the functions below
  take it as the parameter \<open>dec\<close>. \<open>ascii_decimal\<close> is its restriction to ASCII, used to
  run the model on inputs that hold no other digit.
\<close>

definition ascii_decimal :: "uchar \<Rightarrow> bool" where
  "ascii_decimal c \<longleftrightarrow> 48 \<le> c \<and> c \<le> 57"

text \<open>\<open>s.strip()\<close>: leading and trailing whitespace removed.\<close>

definition strip :: "ustring \<Rightarrow> ustring" where
  "strip s = rev (dropWhile isspace (rev (dropWhile isspace s)))"

text \<open>\<open>s.startswith(p)\<close> and \<open>p in s\<close>.\<close>

fun startswith :: "ustring \<Rightarrow> ustring \<Rightarrow> bool" where
  "startswith s [] = True"
| "startswith [] (p # ps) = False"
| "startswith (c # cs) (p # ps) = (c = p \<and> startswith cs ps)"

fun contains :: "ustring \<Rightarrow> ustring \<Rightarrow> bool" where
  "contains p [] = (p = [])"
| "contains p (c # cs) = (startswith (c # cs) p \<or> contains p cs)"

text \<open>\<open>" ".join(parts)\<close>.\<close>

fun join_space :: "ustring list \<Rightarrow> ustring" where
  "join_space [] = []"
| "join_space [p] = p"
| "join_space (p # q # ps) = p @ [32] @ join_space (q # ps)"

text \<open>
  \<open>re.split(r"\s+|<U+3000>", s)\<close>: the pieces of \<open>s\<close> between the matches, empty pieces
  included. At a whitespace character the first alternative takes the whole whitespace run;
  the second alternative takes one ideographic space. \<open>cur\<close> is the piece being read,
  reversed.
\<close>

function re_split_ws :: "ustring \<Rightarrow> ustring \<Rightarrow> ustring list" where
  "re_split_ws cur [] = [rev cur]"
| "re_split_ws cur (c # cs) =
     (if isspace c then rev cur # re_split_ws [] (dropWhile isspace cs)
      else if c = 12288 then rev cur # re_split_ws [] cs
      else re_split_ws (c # cur) cs)"
  by pat_completeness auto
termination
  by (relation "measure (\<lambda>(cur, s). length s)")
     (auto simp: length_dropWhile_le less_Suc_eq_le)

section \<open>The name parser\<close>

text \<open>
  \<open>Extractor._parse_name\<close>, returning \<open>(surname, first_name, full_name)\<close>. Its local
  values \<open>clean\<close>, \<open>is_alpha\<close> and \<open>parts\<close> are named functions here, so that
  statements can speak of them. The quotient \<open>alpha_count / total_len\<close> of two lengths is
  compared with one half over the reals.
\<close>

definition clean_name :: "ustring \<Rightarrow> ustring" where
  "clean_name raw_name =
     (let clean = strip raw_name
      in filter (\<lambda>c. c \<noteq> 40 \<and> c \<noteq> 41) clean)"

definition is_alpha :: "ustring \<Rightarrow> bool" where
  "is_alpha clean =
     (let alpha_count = length (filter ascii_alpha clean);
          total_len = length clean
      in if total_len > 0 then real alpha_count / real total_len > 0.5 else False)"

definition split_parts :: "ustring \<Rightarrow> ustring list" where
  "split_parts clean =
     (let parts = re_split_ws [] clean
      in filter (\<lambda>p. p \<noteq> []) parts)"

definition parse_name :: "ustring \<Rightarrow> ustring \<times> ustring \<times> ustring" where
  "parse_name raw_name =
     (let clean = clean_name raw_name
      in if clean = [] then ([], [], [])
         else if is_alpha clean then ([], [], clean)
         else
           let parts = split_parts clean
           in if length parts \<ge> 2
              then
                let surname = parts ! 0;
                    first_name = concat (drop 1 parts);
                    full_name = surname @ [32] @ first_name
                in (surname, first_name, full_name)
              else ([], [], clean))"

text \<open>
  The specification's reading of the split, for comparison with \<open>split_parts\<close>: the
  text is cut at runs of whitespace, ASCII or ideographic, and the segments are the maximal
  runs of other characters.
\<close>

definition is_separator :: "uchar \<Rightarrow> bool" where
  "is_separator c \<longleftrightarrow> isspace c \<or> c = 12288"

function whitespace_segments :: "ustring \<Rightarrow> ustring list" where
  "whitespace_segments s =
     (let t = dropWhile is_separator s
      in if t = [] then []
         else takeWhile (\<lambda>c. \<not> is_separator c) t #
              whitespace_segments (dropWhile (\<lambda>c. \<not> is_separator c) t))"
  by pat_completeness auto
termination
proof (relation "measure length", simp)
  fix s t :: ustring
  assume t: "t = dropWhile is_separator s" and ne: "t \<noteq> []"
  from ne have "\<not> is_separator (hd t)"
    unfolding t by (rule hd_dropWhile)
  with ne have "dropWhile (\<lambda>c. \<not> is_separator c) t = dropWhile (\<lambda>c. \<not> is_separator c) (tl t)"
    by (cases t) simp_all
  then have "length (dropWhile (\<lambda>c. \<not> is_separator c) t) \<le> length (tl t)"
    using length_dropWhile_le [of "\<lambda>c. \<not> is_separator c" "tl t"] by simp
  also from ne have "\<dots> < length t" by (cases t) simp_all
  also have "\<dots> \<le> length s" unfolding t by (rule length_dropWhile_le)
  finally show "(dropWhile (\<lambda>c. \<not> is_separator c) t, s) \<in> measure length" by simp
qed

section \<open>Data model\<close>

text \<open>
  Errors the extraction code can raise: an index past the end of a box, \<open>min\<close>/\<open>max\<close> of
  an empty sequence, and \<open>re.error\<close> for a pattern that does not compile.
\<close>

datatype error = IndexError | ValueError | ReError

definition bind_err :: "error + 'a \<Rightarrow> ('a \<Rightarrow> error + 'b) \<Rightarrow> error + 'b" where
  "bind_err m f = (case m of Inl e \<Rightarrow> Inl e | Inr v \<Rightarrow> f v)"

text \<open>
  A token of the OCR engine (\<open>WordPrediction\<close>): the fields the extractor reads. The
  record is extensible, and the functions below take any extension, so that the equality
  \<open>word == id_word\<close> compares the engine's further fields as well. A point is a pair
  \<open>(x, y)\<close>. Python's floats are modelled as reals: scores are only compared, and the
  products with 0.8 and 5 and the halved sums are taken exactly.
\<close>

record WordPrediction =
  content :: ustring
  rec_score :: real
  points :: "(real \<times> real) list"

record AttendCheckConfig =
  student_id_pattern :: ustring
  student_id_prefix :: ustring
  name_exclusion_pattern :: "ustring option"
  confidence_threshold :: real

record StudentInfo =
  student_id_full :: ustring
  student_id_num :: ustring
  surname :: ustring
  name :: ustring
  full_name :: ustring
  confidence :: real
  file_name :: "ustring option"

text \<open>
  A compiled pattern is represented by what the extractor asks of it: whether
  \<open>pattern.search(s)\<close> finds a match.
\<close>

type_synonym pattern = "ustring \<Rightarrow> bool"

record Extractor =
  self_config :: AttendCheckConfig
  self_id_pattern :: pattern
  self_name_exclusion_pattern :: "pattern option"

text \<open>
  \<open>Extractor.__init__\<close>. The regular-expression compiler is the parameter \<open>re_compile\<close>:
  \<open>None\<close> where \<open>re.compile\<close> raises. An exclusion pattern that is \<open>None\<close> or the empty
  string is falsy and is not compiled.
\<close>

definition Extractor_init ::
  "(ustring \<Rightarrow> pattern option) \<Rightarrow> AttendCheckConfig \<Rightarrow> error + Extractor" where
  "Extractor_init re_compile config =
     (case re_compile (student_id_pattern config) of
        None \<Rightarrow> Inl ReError
      | Some id_pattern \<Rightarrow>
          (case name_exclusion_pattern config of
             None \<Rightarrow> Inr \<lparr>self_config = config, self_id_pattern = id_pattern,
                          self_name_exclusion_pattern = None\<rparr>
           | Some p \<Rightarrow>
               if p \<noteq> [] then
                 (case re_compile p of
                    None \<Rightarrow> Inl ReError
                  | Some ex \<Rightarrow> Inr \<lparr>self_config = config, self_id_pattern = id_pattern,
                                   self_name_exclusion_pattern = Some ex\<rparr>)
               else Inr \<lparr>self_config = config, self_id_pattern = id_pattern,
                         self_name_exclusion_pattern = None\<rparr>))"

section \<open>Identifier search\<close>

text \<open>
  A match object of the search pattern \<open>(<prefix>\d+)\<close>: \<open>match.start()\<close> and
  \<open>match.group(1)\<close>.
\<close>

record re_match =
  m_start :: nat
  group1 :: ustring

text \<open>
  The pattern tried at the head of \<open>s\<close>: the escaped prefix taken literally, then one or
  more digits, as many as there are (nothing follows \<open>\d+\<close>, so the greedy match stands).
\<close>

definition id_match_here :: "(uchar \<Rightarrow> bool) \<Rightarrow> ustring \<Rightarrow> ustring \<Rightarrow> ustring option" where
  "id_match_here dec prefix s =
     (if startswith s prefix
      then (let ds = takeWhile dec (drop (length prefix) s)
            in if ds = [] then None else Some (prefix @ ds))
      else None)"

text \<open>\<open>id_search_pattern.search\<close>: the leftmost position where the pattern matches.\<close>

fun id_search_from :: "(uchar \<Rightarrow> bool) \<Rightarrow> ustring \<Rightarrow> nat \<Rightarrow> ustring \<Rightarrow> re_match option" where
  "id_search_from dec prefix i [] = None"
| "id_search_from dec prefix i (c # cs) =
     (case id_match_here dec prefix (c # cs) of
        Some g \<Rightarrow> Some \<lparr>m_start = i, group1 = g\<rparr>
      | None \<Rightarrow> id_search_from dec prefix (Suc i) cs)"

definition id_search :: "(uchar \<Rightarrow> bool) \<Rightarrow> ustring \<Rightarrow> ustring \<Rightarrow> re_match option" where
  "id_search dec prefix s = id_search_from dec prefix 0 s"

section \<open>The spatial search\<close>

text \<open>\<open>box[i][1]\<close>, and \<open>min\<close>/\<open>max\<close> of a generator.\<close>

definition point_y :: "(real \<times> real) list \<Rightarrow> nat \<Rightarrow> error + real" where
  "point_y box i = (if i < length box then Inr (snd (box ! i)) else Inl IndexError)"

definition py_min :: "real list \<Rightarrow> error + real" where
  "py_min xs = (case xs of [] \<Rightarrow> Inl ValueError | x # r \<Rightarrow> Inr (fold min r x))"

definition py_max :: "real list \<Rightarrow> error + real" where
  "py_max xs = (case xs of [] \<Rightarrow> Inl ValueError | x # r \<Rightarrow> Inr (fold max r x))"

text \<open>
  The first lines of \<open>_find_name_at_left\<close>: \<open>(id_cy, id_height, id_left_x)\<close> of the
  identifier's box.
\<close>

definition id_geometry :: "(real \<times> real) list \<Rightarrow> error + (real \<times> real \<times> real)" where
  "id_geometry id_box =
     bind_err (point_y id_box 0) (\<lambda>y0.
     bind_err (point_y id_box 2) (\<lambda>y2.
     bind_err (py_min (map fst id_box)) (\<lambda>id_left_x.
       Inr ((y0 + y2) / 2, \<bar>y2 - y0\<bar>, id_left_x))))"

text \<open>The first loop of \<open>_find_name_at_left\<close>: the candidates \<open>(word, w_right_x)\<close>.\<close>

fun left_candidates ::
  "Extractor \<Rightarrow> 'a WordPrediction_scheme \<Rightarrow> real \<Rightarrow> real \<Rightarrow> real \<Rightarrow>
     'a WordPrediction_scheme list \<Rightarrow> error + ('a WordPrediction_scheme \<times> real) list" where
  "left_candidates ex id_word id_cy id_height id_left_x [] = Inr []"
| "left_candidates ex id_word id_cy id_height id_left_x (word # rest) =
     (if word = id_word then left_candidates ex id_word id_cy id_height id_left_x rest
      else if (case self_name_exclusion_pattern ex of
                 None \<Rightarrow> False | Some p \<Rightarrow> p (content word))
      then left_candidates ex id_word id_cy id_height id_left_x rest
      else if student_id_prefix (self_config ex) \<noteq> [] \<and>
              contains (student_id_prefix (self_config ex)) (content word)
      then left_candidates ex id_word id_cy id_height id_left_x rest
      else
        bind_err (point_y (points word) 0) (\<lambda>y0.
        bind_err (point_y (points word) 2) (\<lambda>y2.
        bind_err (py_max (map fst (points word))) (\<lambda>w_right_x.
        bind_err (left_candidates ex id_word id_cy id_height id_left_x rest) (\<lambda>candidates.
          let w_cy = (y0 + y2) / 2
          in Inr (if \<bar>w_cy - id_cy\<bar> < id_height * 0.8 \<and> w_right_x < id_left_x
                  then (word, w_right_x) # candidates else candidates))))))"

text \<open>
  The second loop: \<open>name_parts\<close> grows at the front, \<open>last_x\<close> is the running boundary.
\<close>

fun accumulate ::
  "real \<Rightarrow> real \<Rightarrow> ustring list \<Rightarrow> ('a WordPrediction_scheme \<times> real) list \<Rightarrow>
     error + ustring list" where
  "accumulate id_height last_x name_parts [] = Inr name_parts"
| "accumulate id_height last_x name_parts ((word, x) # rest) =
     (let dist = last_x - x
      in if dist > id_height * 5 then Inr name_parts
         else
           let name_parts = content word # name_parts
           in bind_err (py_min (map fst (points word))) (\<lambda>last_x.
                if length name_parts \<ge> 2 then Inr name_parts
                else accumulate id_height last_x name_parts rest))"

text \<open>
  \<open>candidates.sort(key=lambda x: x[1], reverse=True)\<close>: descending by \<open>w_right_x\<close>, equal
  keys in their original order (the sort is stable, also when reversed).
\<close>

definition sort_candidates ::
  "('a WordPrediction_scheme \<times> real) list \<Rightarrow> ('a WordPrediction_scheme \<times> real) list" where
  "sort_candidates candidates = sort_key (\<lambda>c. - snd c) candidates"

definition find_name_at_left ::
  "Extractor \<Rightarrow> 'a WordPrediction_scheme \<Rightarrow> 'a WordPrediction_scheme list \<Rightarrow>
     error + ustring" where
  "find_name_at_left ex id_word all_words =
     bind_err (id_geometry (points id_word)) (\<lambda>(id_cy, id_height, id_left_x).
     bind_err (left_candidates ex id_word id_cy id_height id_left_x all_words) (\<lambda>candidates.
     bind_err (accumulate id_height id_left_x [] (sort_candidates candidates)) (\<lambda>name_parts.
       Inr (join_space name_parts))))"

section \<open>Extraction\<close>

text \<open>
  \<open>Extractor.extract\<close> is \<open>Extractor_extract\<close> below; its two loops and the embedded
  check come first.
\<close>

text \<open>The first loop of \<open>extract\<close>: the pairs \<open>(word, match)\<close> that pass the threshold.\<close>

fun find_candidates ::
  "(uchar \<Rightarrow> bool) \<Rightarrow> Extractor \<Rightarrow> 'a WordPrediction_scheme list \<Rightarrow>
     ('a WordPrediction_scheme \<times> re_match) list" where
  "find_candidates dec ex [] = []"
| "find_candidates dec ex (word # rest) =
     (case id_search dec (student_id_prefix (self_config ex)) (content word) of
        Some m \<Rightarrow>
          if rec_score word \<ge> confidence_threshold (self_config ex)
          then (word, m) # find_candidates dec ex rest
          else find_candidates dec ex rest
      | None \<Rightarrow> find_candidates dec ex rest)"

text \<open>The embedded check: \<open>clean_pre\<close> of the content before the match.\<close>

definition clean_pre :: "ustring \<Rightarrow> nat \<Rightarrow> ustring" where
  "clean_pre word_content start =
     (let pre_id_content = take start word_content;
          clean_pre = strip pre_id_content
      in if clean_pre \<noteq> [] \<and> last clean_pre = 40 then strip (butlast clean_pre)
         else clean_pre)"

definition raw_name ::
  "Extractor \<Rightarrow> 'a WordPrediction_scheme \<Rightarrow> re_match \<Rightarrow> 'a WordPrediction_scheme list \<Rightarrow>
     error + ustring" where
  "raw_name ex word m words =
     (let cp = clean_pre (content word) (m_start m)
      in if cp \<noteq> [] then Inr cp else find_name_at_left ex word words)"

text \<open>
  The second loop of \<open>extract\<close>, over the candidates, with its state \<open>seen_ids\<close> and
  \<open>students\<close>.
\<close>

fun extract_loop ::
  "(uchar \<Rightarrow> bool) \<Rightarrow> Extractor \<Rightarrow> 'a WordPrediction_scheme list \<Rightarrow> ustring \<Rightarrow>
     ('a WordPrediction_scheme \<times> re_match) list \<Rightarrow> ustring set \<Rightarrow> StudentInfo list \<Rightarrow>
     error + StudentInfo list" where
  "extract_loop dec ex words fname [] seen_ids students = Inr students"
| "extract_loop dec ex words fname ((word, m) # rest) seen_ids students =
     (let full_id = group1 m
      in if full_id \<in> seen_ids then extract_loop dec ex words fname rest seen_ids students
         else
           let seen_ids = insert full_id seen_ids;
               id_num = filter dec full_id
           in bind_err (raw_name ex word m words) (\<lambda>raw.
                case parse_name raw of
                  (sur, first_name, full) \<Rightarrow>
                    extract_loop dec ex words fname rest seen_ids
                      (students @
                       [\<lparr>student_id_full = full_id, student_id_num = id_num,
                         surname = sur, name = first_name, full_name = full,
                         confidence = rec_score word, file_name = Some fname\<rparr>])))"

definition Extractor_extract ::
  "(uchar \<Rightarrow> bool) \<Rightarrow> Extractor \<Rightarrow> 'a WordPrediction_scheme list \<Rightarrow> ustring \<Rightarrow>
     error + StudentInfo list" where
  "Extractor_extract dec ex words fname =
     extract_loop dec ex words fname (find_candidates dec ex words) {} []"

section \<open>Reference definitions and concrete configurations\<close>

text \<open>
  The specification's reading of the deduplication: the first occurrence of a value wins,
  later ones are dropped; \<open>seen\<close> holds the values met so far.
\<close>

fun first_occurrences :: "'a set \<Rightarrow> 'a list \<Rightarrow> 'a list" where
  "first_occurrences seen [] = []"
| "first_occurrences seen (x # xs) =
     (if x \<in> seen then first_occurrences seen xs
      else x # first_occurrences (insert x seen) xs)"

text \<open>
  The defaults of \<open>config_schema.py\<close>: empty identifier pattern and prefix, the exclusion
  pattern \<^verbatim>\<open>[!@#$%^&*(),.?\":{}|<>]\<close> and threshold 0.5. \<open>default_exclusion\<close> is what the
  compiled exclusion pattern answers: whether the text holds one of the characters of the
  class. The empty identifier pattern compiles and finds a match in every text.
\<close>

definition default_exclusion_source :: ustring where
  "default_exclusion_source =
     [91, 33, 64, 35, 36, 37, 94, 38, 42, 40, 41, 44, 46, 63, 92, 34, 58, 123, 125, 124, 60,
      62, 93]"

definition default_exclusion :: pattern where
  "default_exclusion s =
     list_ex (\<lambda>c. c \<in> set [33, 64, 35, 36, 37, 94, 38, 42, 40, 41, 44, 46, 63, 34, 58, 123,
                             125, 124, 60, 62]) s"

definition default_config :: AttendCheckConfig where
  "default_config =
     \<lparr>student_id_pattern = [], student_id_prefix = [],
      name_exclusion_pattern = Some default_exclusion_source, confidence_threshold = 0.5\<rparr>"

definition default_extractor :: Extractor where
  "default_extractor =
     \<lparr>self_config = default_config, self_id_pattern = (\<lambda>s. True),
      self_name_exclusion_pattern = Some default_exclusion\<rparr>"

text \<open>The default configuration with the identifier prefix set to \<open>px-\<close>.\<close>

definition px_extractor :: Extractor where
  "px_extractor =
     default_extractor
       \<lparr>self_config := default_config\<lparr>student_id_prefix := [112, 120, 45]\<rparr>\<rparr>"

text \<open>
  The geometry the spatial search reads off a box, as total functions for the statements
  (they agree with the code on a box of at least three points): the extreme x-coordinates
  and the centre and height taken from the first and third points.
\<close>

definition box_left :: "(real \<times> real) list \<Rightarrow> real" where
  "box_left box = Min (fst ` set box)"

definition box_right :: "(real \<times> real) list \<Rightarrow> real" where
  "box_right box = Max (fst ` set box)"

definition box_vcenter :: "(real \<times> real) list \<Rightarrow> real" where
  "box_vcenter box = (snd (box ! 0) + snd (box ! 2)) / 2"

definition box_height :: "(real \<times> real) list \<Rightarrow> real" where
  "box_height box = \<bar>snd (box ! 2) - snd (box ! 0)\<bar>"

text \<open>The test that the candidate loop applies to one token.\<close>

definition keeps ::
  "Extractor \<Rightarrow> 'a WordPrediction_scheme \<Rightarrow> real \<Rightarrow> real \<Rightarrow> real \<Rightarrow>
     'a WordPrediction_scheme \<Rightarrow> bool" where
  "keeps ex id_word id_cy id_height id_left_x w \<longleftrightarrow>
     w \<noteq> id_word \<and>
     \<not> (case self_name_exclusion_pattern ex of None \<Rightarrow> False | Some p \<Rightarrow> p (content w)) \<and>
     \<not> (student_id_prefix (self_config ex) \<noteq> [] \<and>
        contains (student_id_prefix (self_config ex)) (content w)) \<and>
     \<bar>box_vcenter (points w) - id_cy\<bar> < id_height * 0.8 \<and>
     box_right (points w) < id_left_x"

text \<open>
  A token list to run the extraction on, with the prefix \<open>px-\<close>: a token with the name
  U+5C71 U+7530, space, U+592A U+90CE embedded before \<open>(px-1)\<close>; a second token that
  carries \<open>px-1\<close> again; a token \<open>px-3\<close> below the threshold; a bare token \<open>px-2\<close>.
  \<open>example_students\<close> is what the extraction returns on it.
\<close>

definition example_word_a :: WordPrediction where
  "example_word_a =
     \<lparr>content = [23665, 30000, 32, 22826, 37070, 40, 112, 120, 45, 49, 41], rec_score = 0.9,
      points = [(300, 0), (420, 0), (420, 10), (300, 10)]\<rparr>"

definition example_word_b :: WordPrediction where
  "example_word_b =
     \<lparr>content = [22826, 37070, 40, 112, 120, 45, 49, 41], rec_score = 0.8,
      points = [(300, 40), (400, 40), (400, 50), (300, 50)]\<rparr>"

definition example_word_c :: WordPrediction where
  "example_word_c =
     \<lparr>content = [112, 120, 45, 51], rec_score = 0.3,
      points = [(300, 80), (340, 80), (340, 90), (300, 90)]\<rparr>"

definition example_word_d :: WordPrediction where
  "example_word_d =
     \<lparr>content = [112, 120, 45, 50], rec_score = 0.7,
      points = [(300, 120), (340, 120), (340, 130), (300, 130)]\<rparr>"

definition example_words :: "WordPrediction list" where
  "example_words = [example_word_a, example_word_b, example_word_c, example_word_d]"

definition example_students :: "StudentInfo list" where
  "example_students =
     [\<lparr>student_id_full = [112, 120, 45, 49], student_id_num = [49],
       surname = [23665, 30000], name = [22826, 37070],
       full_name = [23665, 30000, 32, 22826, 37070], confidence = 0.9, file_name = Some []\<rparr>,
      \<lparr>student_id_full = [112, 120, 45, 50], student_id_num = [50],
       surname = [], name = [], full_name = [], confidence = 0.7,
       file_name = Some []\<rparr>]"


text \<open>
  The specification's reading of the greedy accumulation over the ordered candidates,
  closest first: nothing when the first gap exceeds five heights; the first token alone
  when there is no second one or the gap from its left edge to the second exceeds five
  heights; otherwise the second token's text before the first's, and never a third.
\<close>

definition greedy_parts ::
  "real \<Rightarrow> real \<Rightarrow> ('a WordPrediction_scheme \<times> real) list \<Rightarrow> ustring list" where
  "greedy_parts id_height id_left_x cands =
     (case cands of
        [] \<Rightarrow> []
      | (w1, x1) # rest \<Rightarrow>
          if id_left_x - x1 > 5 * id_height then []
          else
            (case rest of
               [] \<Rightarrow> [content w1]
             | (w2, x2) # far \<Rightarrow>
                 if box_left (points w1) - x2 > 5 * id_height then [content w1]
                 else [content w2, content w1]))"

text \<open>
  The spatial form of the specification, with a given name added: the two name tokens
  U+5C71 U+7530 and U+592A U+90CE to the left of the identifier \<open>px-0000002\<close>, all on
  one line of height 20.
\<close>

definition spatial_name_a :: WordPrediction where
  "spatial_name_a =
     \<lparr>content = [23665, 30000], rec_score = 0.9,
      points = [(10, 0), (50, 0), (50, 20), (10, 20)]\<rparr>"

definition spatial_name_b :: WordPrediction where
  "spatial_name_b =
     \<lparr>content = [22826, 37070], rec_score = 0.9,
      points = [(60, 0), (110, 0), (110, 20), (60, 20)]\<rparr>"

definition spatial_id_word :: WordPrediction where
  "spatial_id_word =
     \<lparr>content = [112, 120, 45, 48, 48, 48, 48, 48, 48, 50], rec_score = 0.9,
      points = [(120, 0), (220, 0), (220, 20), (120, 20)]\<rparr>"

definition spatial_words :: "WordPrediction list" where
  "spatial_words = [spatial_name_a, spatial_name_b, spatial_id_word]"




text \<open>
  The regular-expression compiler on the two patterns of the default configuration, which
  both compile; other patterns are outside this table.
\<close>

definition re_compile_default :: "ustring \<Rightarrow> pattern option" where
  "re_compile_default p =
     (if p = [] then Some (\<lambda>s. True)
      else if p = default_exclusion_source then Some default_exclusion
      else None)"

text \<open>A token that holds the digits \<open>2024\<close> and no prefix.\<close>

definition digits_word :: WordPrediction where
  "digits_word =
     \<lparr>content = [50, 48, 50, 52], rec_score = 0.9,
      points = [(0, 0), (40, 0), (40, 10), (0, 10)]\<rparr>"

section \<open>Properties of the name parser\<close>

declare whitespace_segments.simps [simp del]

lemma is_separator_isspace: "is_separator c = isspace c"
  by (auto simp: is_separator_def isspace_def)

lemma is_alpha_iff: "is_alpha clean \<longleftrightarrow> length clean < 2 * length (filter ascii_alpha clean)"
proof (cases "clean = []")
  case True
  then show ?thesis by (simp add: is_alpha_def)
next
  case False
  then have pos: "0 < real (length clean)" by simp
  have "real (length (filter ascii_alpha clean)) / real (length clean) > 0.5
        \<longleftrightarrow> real (length clean) < 2 * real (length (filter ascii_alpha clean))"
    using pos by (simp add: field_simps)
  also have "\<dots> \<longleftrightarrow> length clean < 2 * length (filter ascii_alpha clean)"
    by (metis of_nat_less_iff of_nat_mult of_nat_numeral)
  finally show ?thesis using False by (simp add: is_alpha_def Let_def)
qed

lemma ws_drop: "whitespace_segments (dropWhile is_separator s) = whitespace_segments s"
  by (subst (1 2) whitespace_segments.simps) (simp add: dropWhile_idem)

lemma ws_unfold:
  "whitespace_segments d =
     (if takeWhile (\<lambda>c. \<not> is_separator c) d = [] then []
      else [takeWhile (\<lambda>c. \<not> is_separator c) d]) @
     whitespace_segments (dropWhile (\<lambda>c. \<not> is_separator c) d)"
proof (cases d)
  case Nil
  then show ?thesis by simp
next
  case (Cons c cs)
  show ?thesis
  proof (cases "is_separator c")
    case True
    then show ?thesis using Cons by simp
  next
    case False
    then have "dropWhile is_separator d = d" using Cons by simp
    then show ?thesis using Cons False
      by (subst whitespace_segments.simps) (simp add: Let_def)
  qed
qed

lemma re_split_ws_segments:
  "filter (\<lambda>p. p \<noteq> []) (re_split_ws cur s) =
     (if rev cur @ takeWhile (\<lambda>c. \<not> is_separator c) s = [] then []
      else [rev cur @ takeWhile (\<lambda>c. \<not> is_separator c) s]) @
     whitespace_segments (dropWhile (\<lambda>c. \<not> is_separator c) s)"
proof (induction cur s rule: re_split_ws.induct)
  case (1 cur)
  then show ?case by (simp add: whitespace_segments.simps)
next
  case (2 cur c cs)
  show ?case
  proof (cases "isspace c")
    case True
    have "whitespace_segments (c # cs) = whitespace_segments (dropWhile isspace cs)"
    proof -
      have "whitespace_segments (c # cs) = whitespace_segments (dropWhile is_separator (c # cs))"
        by (simp only: ws_drop)
      also have "dropWhile is_separator (c # cs) = dropWhile is_separator (dropWhile isspace cs)"
        using True by (simp add: is_separator_isspace [abs_def] dropWhile_idem)
      also have "whitespace_segments \<dots> = whitespace_segments (dropWhile isspace cs)"
        by (simp only: ws_drop)
      finally show ?thesis .
    qed
    moreover have "filter (\<lambda>p. p \<noteq> []) (re_split_ws [] (dropWhile isspace cs)) =
        whitespace_segments (dropWhile isspace cs)"
      using 2(1) [OF True] ws_unfold [of "dropWhile isspace cs"] by simp
    ultimately show ?thesis using True
      by (simp add: is_separator_isspace)
  next
    case False
    then have "c \<noteq> 12288" by (auto simp: isspace_def)
    with False 2(3) show ?thesis by (simp add: is_separator_isspace)
  qed
qed

lemma split_parts_eq: "split_parts clean = whitespace_segments clean"
  using re_split_ws_segments [of "[]" clean] ws_unfold [of clean]
  by (simp add: split_parts_def)

lemma split_parts_nonempty: "p \<in> set (split_parts s) \<Longrightarrow> p \<noteq> []"
  by (simp add: split_parts_def)

lemma parse_name_shape:
  assumes "parse_name raw = (s, g, f)"
  shows "(s = [] \<longleftrightarrow> g = []) \<and> (s \<noteq> [] \<longrightarrow> f = s @ [32] @ g)"
proof (cases "clean_name raw \<noteq> [] \<and> \<not> is_alpha (clean_name raw) \<and> 2 \<le> length (split_parts (clean_name raw))")
  case True
  then obtain a b ps where ps: "split_parts (clean_name raw) = a # b # ps"
    by (cases "split_parts (clean_name raw)" rule: remdups_adj.cases) auto
  then have "a \<noteq> []" "b \<noteq> []"
    using split_parts_nonempty [of a "clean_name raw"] split_parts_nonempty [of b "clean_name raw"]
    by auto
  with assms True ps show ?thesis by (auto simp: parse_name_def Let_def)
next
  case False
  with assms show ?thesis by (auto simp: parse_name_def Let_def split: if_splits)
qed

text \<open>
  Claim C8. For a cleaned name text that is not alphabetic and that splits at whitespace
  runs (ASCII or ideographic space) into two or more non-empty segments, the parser returns
  the first segment as surname, the other segments concatenated without separator as given
  name, and the surname, one space and the given name as full name. The witness is the
  name U+5C71 U+7530, space, U+592A U+90CE of the specification.
\<close>

theorem parse_name_two_segments:
  assumes "\<not> is_alpha (clean_name raw)"
    and "whitespace_segments (clean_name raw) = s1 # s2 # rest"
  shows "parse_name raw = (s1, concat (s2 # rest), s1 @ [32] @ concat (s2 # rest))"
proof -
  from assms(2) have ne: "clean_name raw \<noteq> []"
    by (auto simp: whitespace_segments.simps)
  from assms(2) have "split_parts (clean_name raw) = s1 # s2 # rest"
    by (simp add: split_parts_eq)
  with assms(1) ne show ?thesis by (simp add: parse_name_def Let_def)
qed

theorem parse_name_two_segments_witness:
  "\<not> is_alpha (clean_name [23665, 30000, 32, 22826, 37070]) \<and>
   whitespace_segments (clean_name [23665, 30000, 32, 22826, 37070]) =
     [23665, 30000] # [22826, 37070] # [] \<and>
   parse_name [23665, 30000, 32, 22826, 37070] =
     ([23665, 30000], [22826, 37070], [23665, 30000, 32, 22826, 37070])"
proof -
  have c: "clean_name [23665, 30000, 32, 22826, 37070] = [23665, 30000, 32, 22826, 37070]"
    by (simp add: clean_name_def strip_def isspace_def)
  have a: "\<not> is_alpha (clean_name [23665, 30000, 32, 22826, 37070])"
    unfolding c by (simp add: is_alpha_iff ascii_alpha_def)
  have w: "whitespace_segments (clean_name [23665, 30000, 32, 22826, 37070]) =
     [23665, 30000] # [22826, 37070] # []"
    unfolding c by (simp add: whitespace_segments.simps is_separator_def isspace_def)
  from parse_name_two_segments [OF a w] a w show ?thesis by simp
qed

text \<open>
  Claim C9. A text is classified as alphabetic exactly when its ASCII letters are strictly
  more than half of its characters; the parser returns empty surname and given name and the
  cleaned text as full name both for an alphabetic text and for a non-alphabetic text with
  exactly one whitespace-separated segment. The witnesses are "Taro Yamada" and the
  four-ideograph name U+5C71 U+7530 U+592A U+90CE.
\<close>

theorem parse_name_full_name_only:
  "(is_alpha clean \<longleftrightarrow> length clean < 2 * length (filter ascii_alpha clean)) \<and>
   (is_alpha (clean_name raw) \<longrightarrow> parse_name raw = ([], [], clean_name raw)) \<and>
   (\<not> is_alpha (clean_name raw) \<and> length (whitespace_segments (clean_name raw)) = 1 \<longrightarrow>
      parse_name raw = ([], [], clean_name raw))"
proof (intro conjI impI)
  show "is_alpha clean \<longleftrightarrow> length clean < 2 * length (filter ascii_alpha clean)"
    by (rule is_alpha_iff)
  show "parse_name raw = ([], [], clean_name raw)" if "is_alpha (clean_name raw)"
  proof -
    from that have "clean_name raw \<noteq> []" by (auto simp: is_alpha_iff)
    with that show ?thesis by (simp add: parse_name_def Let_def)
  qed
  show "parse_name raw = ([], [], clean_name raw)"
    if "\<not> is_alpha (clean_name raw) \<and> length (whitespace_segments (clean_name raw)) = 1"
    using that by (auto simp: parse_name_def split_parts_eq Let_def)
qed

theorem parse_name_full_name_only_witness:
  "is_alpha (clean_name [84, 97, 114, 111, 32, 89, 97, 109, 97, 100, 97]) \<and>
   parse_name [84, 97, 114, 111, 32, 89, 97, 109, 97, 100, 97] =
     ([], [], [84, 97, 114, 111, 32, 89, 97, 109, 97, 100, 97]) \<and>
   \<not> is_alpha (clean_name [23665, 30000, 22826, 37070]) \<and>
   length (whitespace_segments (clean_name [23665, 30000, 22826, 37070])) = 1 \<and>
   parse_name [23665, 30000, 22826, 37070] = ([], [], [23665, 30000, 22826, 37070])"
proof -
  have c1: "clean_name [84, 97, 114, 111, 32, 89, 97, 109, 97, 100, 97] =
      [84, 97, 114, 111, 32, 89, 97, 109, 97, 100, 97]"
    by (simp add: clean_name_def strip_def isspace_def)
  have c2: "clean_name [23665, 30000, 22826, 37070] = [23665, 30000, 22826, 37070]"
    by (simp add: clean_name_def strip_def isspace_def)
  have a1: "is_alpha (clean_name [84, 97, 114, 111, 32, 89, 97, 109, 97, 100, 97])"
    unfolding c1 by (simp add: is_alpha_iff ascii_alpha_def)
  have a2: "\<not> is_alpha (clean_name [23665, 30000, 22826, 37070])"
    unfolding c2 by (simp add: is_alpha_iff ascii_alpha_def)
  have w2: "length (whitespace_segments (clean_name [23665, 30000, 22826, 37070])) = 1"
    unfolding c2 by (simp add: whitespace_segments.simps is_separator_def isspace_def)
  from parse_name_full_name_only [of "[]" "[84, 97, 114, 111, 32, 89, 97, 109, 97, 100, 97]"] a1
  have p1: "parse_name [84, 97, 114, 111, 32, 89, 97, 109, 97, 100, 97] =
     ([], [], [84, 97, 114, 111, 32, 89, 97, 109, 97, 100, 97])"
    unfolding c1 by blast
  from parse_name_full_name_only [of "[]" "[23665, 30000, 22826, 37070]"] a2 w2
  have p2: "parse_name [23665, 30000, 22826, 37070] = ([], [], [23665, 30000, 22826, 37070])"
    unfolding c2 by blast
  from a1 a2 w2 p1 p2 show ?thesis by blast
qed

section \<open>Properties of the extraction loops\<close>

lemma first_occurrences_set: "set (first_occurrences seen xs) = set xs - seen"
  by (induction xs arbitrary: seen) auto

lemma first_occurrences_distinct: "distinct (first_occurrences seen xs)"
  by (induction xs arbitrary: seen) (auto simp: first_occurrences_set)

lemma remdups_snoc: "remdups (ys @ [x]) = filter (\<lambda>y. y \<noteq> x) (remdups ys) @ [x]"
  by (induction ys) auto

lemma first_occurrences_filter:
  "first_occurrences seen xs = filter (\<lambda>x. x \<notin> seen) (rev (remdups (rev xs)))"
proof (induction xs arbitrary: seen)
  case Nil
  then show ?case by simp
next
  case (Cons x xs)
  have r: "rev (remdups (rev xs @ [x])) = x # filter (\<lambda>y. y \<noteq> x) (rev (remdups (rev xs)))"
    by (simp add: remdups_snoc rev_filter)
  show ?case
  proof (cases "x \<in> seen")
    case True
    then have "filter (\<lambda>y. y \<notin> seen) (filter (\<lambda>y. y \<noteq> x) (rev (remdups (rev xs))))
        = filter (\<lambda>y. y \<notin> seen) (rev (remdups (rev xs)))"
      by (auto intro: filter_cong)
    with True Cons show ?thesis by (simp add: r)
  next
    case False
    have "filter (\<lambda>y. y \<notin> seen) (filter (\<lambda>y. y \<noteq> x) (rev (remdups (rev xs))))
        = filter (\<lambda>y. y \<notin> insert x seen) (rev (remdups (rev xs)))"
      by (auto intro: filter_cong)
    with False Cons show ?thesis by (simp add: r)
  qed
qed

lemma bind_err_Inr:
  "bind_err m f = Inr r \<longleftrightarrow> (\<exists>v. m = Inr v \<and> f v = Inr r)"
  by (cases m) (simp_all add: bind_err_def)

lemma extract_loop_result:
  assumes "extract_loop dec ex words fname cs seen students = Inr rs"
  shows "\<exists>new. rs = students @ new \<and>
           map student_id_full new = first_occurrences seen (map (\<lambda>c. group1 (snd c)) cs) \<and>
           (\<forall>r\<in>set new. \<exists>w m raw.
               find (\<lambda>c. group1 (snd c) = student_id_full r) cs = Some (w, m) \<and>
               raw_name ex w m words = Inr raw \<and>
               student_id_full r = group1 m \<and>
               student_id_num r = filter dec (group1 m) \<and>
               (surname r, name r, full_name r) = parse_name raw \<and>
               confidence r = rec_score w \<and>
               file_name r = Some fname)"
  using assms
proof (induction cs arbitrary: seen students)
  case Nil
  then show ?case by simp
next
  case (Cons c cs)
  obtain word m where c: "c = (word, m)" by (cases c)
  show ?case
  proof (cases "group1 m \<in> seen")
    case True
    with Cons.prems c have "extract_loop dec ex words fname cs seen students = Inr rs"
      by simp
    from Cons.IH [OF this] obtain new where new: "rs = students @ new"
      "map student_id_full new = first_occurrences seen (map (\<lambda>c. group1 (snd c)) cs)"
      "\<forall>r\<in>set new. \<exists>w m raw.
               find (\<lambda>c. group1 (snd c) = student_id_full r) cs = Some (w, m) \<and>
               raw_name ex w m words = Inr raw \<and>
               student_id_full r = group1 m \<and>
               student_id_num r = filter dec (group1 m) \<and>
               (surname r, name r, full_name r) = parse_name raw \<and>
               confidence r = rec_score w \<and>
               file_name r = Some fname"
      by blast
    have notseen: "student_id_full r \<notin> seen" if "r \<in> set new" for r
    proof -
      from that have "student_id_full r \<in> set (map student_id_full new)" by simp
      then show ?thesis unfolding new(2) by (simp add: first_occurrences_set)
    qed
    have "\<forall>r\<in>set new. find (\<lambda>c. group1 (snd c) = student_id_full r) (c # cs)
            = find (\<lambda>c. group1 (snd c) = student_id_full r) cs"
      using notseen True c by auto
    with new True c show ?thesis by (intro exI [of _ new]) simp
  next
    case False
    with Cons.prems c obtain raw where raw: "raw_name ex word m words = Inr raw"
      and loop: "extract_loop dec ex words fname cs (insert (group1 m) seen)
                  (students @ [\<lparr>student_id_full = group1 m, student_id_num = filter dec (group1 m),
                     surname = fst (parse_name raw), name = fst (snd (parse_name raw)),
                     full_name = snd (snd (parse_name raw)),
                     confidence = rec_score word, file_name = Some fname\<rparr>]) = Inr rs"
      by (auto simp: Let_def bind_err_Inr case_prod_beta)
    define r0 where "r0 = \<lparr>student_id_full = group1 m, student_id_num = filter dec (group1 m),
                     surname = fst (parse_name raw), name = fst (snd (parse_name raw)),
                     full_name = snd (snd (parse_name raw)),
                     confidence = rec_score word, file_name = Some fname\<rparr>"
    from Cons.IH [OF loop] obtain new where new: "rs = (students @ [r0]) @ new"
      "map student_id_full new =
         first_occurrences (insert (group1 m) seen) (map (\<lambda>c. group1 (snd c)) cs)"
      "\<forall>r\<in>set new. \<exists>w m raw.
               find (\<lambda>c. group1 (snd c) = student_id_full r) cs = Some (w, m) \<and>
               raw_name ex w m words = Inr raw \<and>
               student_id_full r = group1 m \<and>
               student_id_num r = filter dec (group1 m) \<and>
               (surname r, name r, full_name r) = parse_name raw \<and>
               confidence r = rec_score w \<and>
               file_name r = Some fname"
      unfolding r0_def by blast
    have notseen: "student_id_full r \<noteq> group1 m" if "r \<in> set new" for r
    proof -
      from that have "student_id_full r \<in> set (map student_id_full new)" by simp
      then show ?thesis unfolding new(2) by (auto simp add: first_occurrences_set)
    qed
    have tail: "\<forall>r\<in>set new. find (\<lambda>c. group1 (snd c) = student_id_full r) (c # cs)
            = find (\<lambda>c. group1 (snd c) = student_id_full r) cs"
    proof
      fix r assume "r \<in> set new"
      then have "group1 m \<noteq> student_id_full r" using notseen [of r] by simp
      then show "find (\<lambda>c. group1 (snd c) = student_id_full r) (c # cs)
            = find (\<lambda>c. group1 (snd c) = student_id_full r) cs"
        by (simp add: c)
    qed
    have head: "find (\<lambda>c. group1 (snd c) = student_id_full r0) (c # cs) = Some (word, m)"
      by (simp add: c r0_def)
    have r0: "raw_name ex word m words = Inr raw \<and>
               student_id_full r0 = group1 m \<and>
               student_id_num r0 = filter dec (group1 m) \<and>
               (surname r0, name r0, full_name r0) = parse_name raw \<and>
               confidence r0 = rec_score word \<and>
               file_name r0 = Some fname"
      using raw by (simp add: r0_def)
    show ?thesis
    proof (intro exI [of _ "r0 # new"] conjI ballI)
      show "rs = students @ r0 # new" using new(1) by simp
      show "map student_id_full (r0 # new) =
              first_occurrences seen (map (\<lambda>c. group1 (snd c)) (c # cs))"
        using False new(2) c by (simp add: r0_def)
      fix r assume "r \<in> set (r0 # new)"
      then consider "r = r0" | "r \<in> set new" by auto
      then show "\<exists>w m raw.
               find (\<lambda>c. group1 (snd c) = student_id_full r) (c # cs) = Some (w, m) \<and>
               raw_name ex w m words = Inr raw \<and>
               student_id_full r = group1 m \<and>
               student_id_num r = filter dec (group1 m) \<and>
               (surname r, name r, full_name r) = parse_name raw \<and>
               confidence r = rec_score w \<and>
               file_name r = Some fname"
      proof cases
        case 1
        then show ?thesis using head r0 by blast
      next
        case 2
        with new(3) tail show ?thesis by simp
      qed
    qed
  qed
qed

lemma find_candidates_set:
  "(w, m) \<in> set (find_candidates dec ex words) \<longleftrightarrow>
     w \<in> set words \<and> id_search dec (student_id_prefix (self_config ex)) (content w) = Some m \<and>
     confidence_threshold (self_config ex) \<le> rec_score w"
  by (induction words) (auto split: option.splits)

section \<open>Properties of the spatial search\<close>

lemma py_min_eq: "xs \<noteq> [] \<Longrightarrow> py_min xs = Inr (Min (set xs))"
proof (cases xs)
  case (Cons a list)
  show ?thesis using Min.set_eq_fold [of a list] by (simp add: py_min_def Cons)
qed simp

lemma py_max_eq: "xs \<noteq> [] \<Longrightarrow> py_max xs = Inr (Max (set xs))"
proof (cases xs)
  case (Cons a list)
  show ?thesis using Max.set_eq_fold [of a list] by (simp add: py_max_def Cons)
qed simp

lemma py_min_box: "box \<noteq> [] \<Longrightarrow> py_min (map fst box) = Inr (box_left box)"
  by (simp add: py_min_eq box_left_def)

lemma py_max_box: "box \<noteq> [] \<Longrightarrow> py_max (map fst box) = Inr (box_right box)"
  by (simp add: py_max_eq box_right_def)

lemma id_geometry_eq:
  "3 \<le> length box \<Longrightarrow> id_geometry box = Inr (box_vcenter box, box_height box, box_left box)"
  by (auto simp: id_geometry_def point_y_def bind_err_def py_min_box box_vcenter_def box_height_def)

lemma left_candidates_eq:
  assumes "\<forall>w\<in>set ws. 3 \<le> length (points w)"
  shows "left_candidates ex id_word id_cy id_height id_left_x ws =
           Inr (map (\<lambda>w. (w, box_right (points w)))
                  (filter (keeps ex id_word id_cy id_height id_left_x) ws))"
  using assms
proof (induction ws)
  case Nil
  then show ?case by simp
next
  case (Cons w ws)
  then have ih: "left_candidates ex id_word id_cy id_height id_left_x ws =
           Inr (map (\<lambda>w. (w, box_right (points w)))
                  (filter (keeps ex id_word id_cy id_height id_left_x) ws))"
    and len: "3 \<le> length (points w)" by simp_all
  from len have ne: "points w \<noteq> []" by auto
  have k: "keeps ex id_word id_cy id_height id_left_x w \<longleftrightarrow>
     w \<noteq> id_word \<and>
     \<not> (case self_name_exclusion_pattern ex of None \<Rightarrow> False | Some p \<Rightarrow> p (content w)) \<and>
     \<not> (student_id_prefix (self_config ex) \<noteq> [] \<and>
        contains (student_id_prefix (self_config ex)) (content w)) \<and>
     \<bar>(snd (points w ! 0) + snd (points w ! 2)) / 2 - id_cy\<bar> < id_height * 0.8 \<and>
     box_right (points w) < id_left_x"
    by (simp add: keeps_def box_vcenter_def)
  from len ne show ?case
    by (simp add: ih k point_y_def bind_err_def py_max_box [OF ne] Let_def)
qed

lemma accumulate_total:
  assumes "\<forall>c\<in>set cs. points (fst c) \<noteq> []"
  shows "\<exists>parts. accumulate h lx ps cs = Inr parts"
  using assms
proof (induction cs arbitrary: lx ps)
  case Nil
  then show ?case by simp
next
  case (Cons c cs)
  obtain w x where c: "c = (w, x)" by (cases c)
  with Cons.prems have ne: "points w \<noteq> []" by simp
  from Cons.prems have "\<forall>c\<in>set cs. points (fst c) \<noteq> []" by simp
  from Cons.IH [OF this] show ?case
    by (simp add: c Let_def py_min_box [OF ne] bind_err_def)
qed

lemma find_name_at_left_total:
  assumes "3 \<le> length (points id_word)" and "\<forall>w\<in>set ws. 3 \<le> length (points w)"
  shows "\<exists>n. find_name_at_left ex id_word ws = Inr n"
proof -
  let ?cs = "map (\<lambda>w. (w, box_right (points w)))
       (filter (keeps ex id_word (box_vcenter (points id_word)) (box_height (points id_word))
          (box_left (points id_word))) ws)"
  have "\<forall>c\<in>set (sort_candidates ?cs). points (fst c) \<noteq> []"
    using assms(2) by (auto simp: sort_candidates_def)
  from accumulate_total [OF this] obtain parts where
    "accumulate (box_height (points id_word)) (box_left (points id_word)) [] (sort_candidates ?cs) = Inr parts"
    by blast
  then show ?thesis
    by (simp add: find_name_at_left_def id_geometry_eq [OF assms(1)]
        left_candidates_eq [OF assms(2)] bind_err_def)
qed

lemma raw_name_total:
  assumes "3 \<le> length (points word)" and "\<forall>w\<in>set ws. 3 \<le> length (points w)"
  shows "\<exists>n. raw_name ex word m ws = Inr n"
  using find_name_at_left_total [OF assms] by (simp add: raw_name_def Let_def)

lemma extract_loop_total:
  assumes "\<forall>w\<in>set ws. 3 \<le> length (points w)" and "fst ` set cs \<subseteq> set ws"
  shows "\<exists>rs. extract_loop dec ex ws fname cs seen students = Inr rs"
  using assms(2)
proof (induction cs arbitrary: seen students)
  case Nil
  then show ?case by simp
next
  case (Cons c cs)
  obtain word m where c: "c = (word, m)" by (cases c)
  with Cons.prems assms(1) have "3 \<le> length (points word)" by auto
  from raw_name_total [OF this assms(1)] obtain n where n: "raw_name ex word m ws = Inr n"
    by blast
  from Cons.prems have "fst ` set cs \<subseteq> set ws" by auto
  note ih = Cons.IH [OF this]
  show ?case
    using ih by (simp add: c Let_def n bind_err_def case_prod_beta)
qed

lemma find_candidates_subset: "fst ` set (find_candidates dec ex ws) \<subseteq> set ws"
  by (induction ws) (auto split: option.splits)

lemma extract_total:
  assumes "\<forall>w\<in>set ws. 3 \<le> length (points w)"
  shows "\<exists>rs. Extractor_extract dec ex ws fname = Inr rs"
  unfolding Extractor_extract_def
  by (rule extract_loop_total [OF assms find_candidates_subset])

section \<open>Properties of extraction\<close>

lemmas example_word_defs =
  example_word_a_def example_word_b_def example_word_c_def example_word_d_def

lemma example_candidates:
  "find_candidates ascii_decimal px_extractor example_words =
     [(example_word_a, \<lparr>m_start = 6, group1 = [112, 120, 45, 49]\<rparr>),
      (example_word_b, \<lparr>m_start = 3, group1 = [112, 120, 45, 49]\<rparr>),
      (example_word_d, \<lparr>m_start = 0, group1 = [112, 120, 45, 50]\<rparr>)]"
  by (simp add: example_words_def example_word_defs px_extractor_def default_extractor_def
      default_config_def id_search_def id_match_here_def ascii_decimal_def)

lemma example_raw_name_first:
  "raw_name px_extractor example_word_a \<lparr>m_start = 6, group1 = [112, 120, 45, 49]\<rparr>
     example_words = Inr [23665, 30000, 32, 22826, 37070]"
  by (simp add: example_word_defs raw_name_def clean_pre_def strip_def isspace_def Let_def)

lemma example_raw_name_last:
  "raw_name px_extractor example_word_d \<lparr>m_start = 0, group1 = [112, 120, 45, 50]\<rparr>
     example_words = Inr []"
  by (simp add: example_words_def example_word_defs raw_name_def clean_pre_def strip_def Let_def
      find_name_at_left_def id_geometry_def point_y_def py_min_def py_max_def bind_err_def
      px_extractor_def default_extractor_def default_config_def default_exclusion_def
      sort_candidates_def)

lemma example_parse_first:
  "parse_name [23665, 30000, 32, 22826, 37070] =
     ([23665, 30000], [22826, 37070], [23665, 30000, 32, 22826, 37070])"
  by (simp add: parse_name_def clean_name_def strip_def isspace_def is_alpha_iff ascii_alpha_def
      split_parts_def Let_def)

lemma example_parse_empty: "parse_name [] = ([], [], [])"
  by (simp add: parse_name_def clean_name_def strip_def)

lemma example_extract:
  "Extractor_extract ascii_decimal px_extractor example_words [] = Inr example_students"
proof -
  have sc: "rec_score example_word_a = 0.9" "rec_score example_word_d = 0.7"
    by (simp_all add: example_word_defs)
  show ?thesis
    unfolding Extractor_extract_def example_candidates
    by (simp add: example_raw_name_first example_raw_name_last example_parse_first
        example_parse_empty bind_err_def Let_def ascii_decimal_def example_students_def sc)
qed

text \<open>
  Claim C1. The identifiers of the returned records are pairwise distinct: they are the
  identifiers of the confidence-passing candidates in token scan order, each kept at its
  first occurrence only, and each record carries the confidence of the first candidate
  with its identifier. Extraction returns on every token list whose boxes have four points.
\<close>

theorem extract_identifiers_unique:
  "(Extractor_extract dec ex words fname = Inr rs \<longrightarrow>
      distinct (map student_id_full rs) \<and>
      map student_id_full rs =
        first_occurrences {} (map (\<lambda>c. group1 (snd c)) (find_candidates dec ex words)) \<and>
      (\<forall>r\<in>set rs. \<exists>w m.
          find (\<lambda>c. group1 (snd c) = student_id_full r) (find_candidates dec ex words) =
            Some (w, m) \<and>
          confidence r = rec_score w)) \<and>
   ((\<forall>w\<in>set words. length (points w) = 4) \<longrightarrow>
      (\<exists>rs'. Extractor_extract dec ex words fname = Inr rs'))"
proof (intro conjI impI)
  assume e: "Extractor_extract dec ex words fname = Inr rs"
  from extract_loop_result [OF e [unfolded Extractor_extract_def]]
  obtain new where new: "rs = [] @ new"
    "map student_id_full new =
       first_occurrences {} (map (\<lambda>c. group1 (snd c)) (find_candidates dec ex words))"
    "\<forall>r\<in>set new. \<exists>w m raw.
        find (\<lambda>c. group1 (snd c) = student_id_full r) (find_candidates dec ex words) =
          Some (w, m) \<and>
        raw_name ex w m words = Inr raw \<and>
        student_id_full r = group1 m \<and>
        student_id_num r = filter dec (group1 m) \<and>
        (surname r, name r, full_name r) = parse_name raw \<and>
        confidence r = rec_score w \<and>
        file_name r = Some fname"
    by blast
  from new(1) have rs: "rs = new" by simp
  show "map student_id_full rs =
        first_occurrences {} (map (\<lambda>c. group1 (snd c)) (find_candidates dec ex words))"
    using new(2) rs by simp
  then show "distinct (map student_id_full rs)"
    by (simp add: first_occurrences_distinct)
  show "\<forall>r\<in>set rs. \<exists>w m.
          find (\<lambda>c. group1 (snd c) = student_id_full r) (find_candidates dec ex words) =
            Some (w, m) \<and>
          confidence r = rec_score w"
    using new(3) rs by blast
next
  assume "\<forall>w\<in>set words. length (points w) = 4"
  then have "\<forall>w\<in>set words. 3 \<le> length (points w)" by simp
  then show "\<exists>rs'. Extractor_extract dec ex words fname = Inr rs'"
    by (rule extract_total)
qed

theorem extract_identifiers_unique_witness:
  "Extractor_extract ascii_decimal px_extractor example_words [] = Inr example_students \<and>
   list_all (\<lambda>w. length (points w) = 4) example_words \<and>
   distinct (map student_id_full example_students) \<and>
   map student_id_full example_students = [[112, 120, 45, 49], [112, 120, 45, 50]] \<and>
   map confidence example_students = [0.9, 0.7]"
proof -
  have wf: "list_all (\<lambda>w. length (points w) = 4) example_words"
    by (simp add: example_words_def example_word_defs)
  have ids: "map student_id_full example_students = [[112, 120, 45, 49], [112, 120, 45, 50]]"
    and cs: "map confidence example_students = [0.9, 0.7]"
    by (simp_all add: example_students_def)
  from extract_identifiers_unique
    [of ascii_decimal px_extractor example_words "[]" example_students] example_extract
  have "distinct (map student_id_full example_students)" by blast
  with example_extract wf ids cs show ?thesis by blast
qed

text \<open>
  Claim C2. A token whose content matches the search pattern is an identifier candidate
  exactly when its confidence is at least the threshold; every returned record comes from
  such a token, and a token list whose confidences are all below the threshold yields no
  record.
\<close>

theorem confidence_threshold_gate:
  "((w, m) \<in> set (find_candidates dec ex words) \<longleftrightarrow>
      w \<in> set words \<and>
      id_search dec (student_id_prefix (self_config ex)) (content w) = Some m \<and>
      confidence_threshold (self_config ex) \<le> rec_score w) \<and>
   (Extractor_extract dec ex words fname = Inr rs \<longrightarrow>
      (\<forall>r\<in>set rs. \<exists>w'\<in>set words. \<exists>m'.
          id_search dec (student_id_prefix (self_config ex)) (content w') = Some m' \<and>
          confidence_threshold (self_config ex) \<le> rec_score w' \<and>
          student_id_full r = group1 m' \<and> confidence r = rec_score w')) \<and>
   ((\<forall>w'\<in>set words. rec_score w' < confidence_threshold (self_config ex)) \<longrightarrow>
      Extractor_extract dec ex words fname = Inr [])"
proof (intro conjI impI)
  show "(w, m) \<in> set (find_candidates dec ex words) \<longleftrightarrow>
      w \<in> set words \<and>
      id_search dec (student_id_prefix (self_config ex)) (content w) = Some m \<and>
      confidence_threshold (self_config ex) \<le> rec_score w"
    by (rule find_candidates_set)
next
  assume e: "Extractor_extract dec ex words fname = Inr rs"
  from extract_loop_result [OF e [unfolded Extractor_extract_def]]
  obtain new where new: "rs = [] @ new"
    "\<forall>r\<in>set new. \<exists>w m raw.
        find (\<lambda>c. group1 (snd c) = student_id_full r) (find_candidates dec ex words) =
          Some (w, m) \<and>
        raw_name ex w m words = Inr raw \<and>
        student_id_full r = group1 m \<and>
        student_id_num r = filter dec (group1 m) \<and>
        (surname r, name r, full_name r) = parse_name raw \<and>
        confidence r = rec_score w \<and>
        file_name r = Some fname"
    by blast
  show "\<forall>r\<in>set rs. \<exists>w'\<in>set words. \<exists>m'.
          id_search dec (student_id_prefix (self_config ex)) (content w') = Some m' \<and>
          confidence_threshold (self_config ex) \<le> rec_score w' \<and>
          student_id_full r = group1 m' \<and> confidence r = rec_score w'"
  proof
    fix r assume "r \<in> set rs"
    with new obtain w' m' where f:
      "find (\<lambda>c. group1 (snd c) = student_id_full r) (find_candidates dec ex words) = Some (w', m')"
      and r: "student_id_full r = group1 m'" "confidence r = rec_score w'"
      by auto
    from f have "(w', m') \<in> set (find_candidates dec ex words)"
      by (auto simp: find_Some_iff)
    then have "w' \<in> set words"
      "id_search dec (student_id_prefix (self_config ex)) (content w') = Some m'"
      "confidence_threshold (self_config ex) \<le> rec_score w'"
      by (simp_all add: find_candidates_set)
    with r show "\<exists>w'\<in>set words. \<exists>m'.
          id_search dec (student_id_prefix (self_config ex)) (content w') = Some m' \<and>
          confidence_threshold (self_config ex) \<le> rec_score w' \<and>
          student_id_full r = group1 m' \<and> confidence r = rec_score w'"
      by blast
  qed
next
  assume low: "\<forall>w'\<in>set words. rec_score w' < confidence_threshold (self_config ex)"
  have "find_candidates dec ex words = []"
  proof (cases "find_candidates dec ex words")
    case (Cons c cs)
    obtain w m where "c = (w, m)" by (cases c)
    with Cons have "(w, m) \<in> set (find_candidates dec ex words)" by simp
    then have "w \<in> set words" "confidence_threshold (self_config ex) \<le> rec_score w"
      by (simp_all add: find_candidates_set)
    with low show ?thesis by fastforce
  qed simp
  then show "Extractor_extract dec ex words fname = Inr []"
    by (simp add: Extractor_extract_def)
qed

theorem confidence_threshold_gate_witness:
  "(example_word_a, \<lparr>m_start = 6, group1 = [112, 120, 45, 49]\<rparr>)
     \<in> set (find_candidates ascii_decimal px_extractor example_words) \<and>
   confidence_threshold (self_config px_extractor) \<le> rec_score example_word_a \<and>
   example_word_c \<in> set example_words \<and>
   id_search ascii_decimal (student_id_prefix (self_config px_extractor))
     (content example_word_c) = Some \<lparr>m_start = 0, group1 = [112, 120, 45, 51]\<rparr> \<and>
   rec_score example_word_c < confidence_threshold (self_config px_extractor) \<and>
   (example_word_c, \<lparr>m_start = 0, group1 = [112, 120, 45, 51]\<rparr>)
     \<notin> set (find_candidates ascii_decimal px_extractor example_words) \<and>
   Extractor_extract ascii_decimal px_extractor [example_word_c] [] = Inr []"
proof -
  have a: "(example_word_a, \<lparr>m_start = 6, group1 = [112, 120, 45, 49]\<rparr>)
     \<in> set (find_candidates ascii_decimal px_extractor example_words)"
    by (simp add: example_candidates)
  have c: "example_word_c \<in> set example_words" by (simp add: example_words_def)
  have s: "id_search ascii_decimal (student_id_prefix (self_config px_extractor))
     (content example_word_c) = Some \<lparr>m_start = 0, group1 = [112, 120, 45, 51]\<rparr>"
    by (simp add: example_word_defs px_extractor_def default_extractor_def default_config_def
        id_search_def id_match_here_def ascii_decimal_def)
  have l: "rec_score example_word_c < confidence_threshold (self_config px_extractor)"
    by (simp add: example_word_defs px_extractor_def default_extractor_def default_config_def)
  have l1: "\<forall>w'\<in>set [example_word_c].
      rec_score w' < confidence_threshold (self_config px_extractor)"
    using l by simp
  note t = confidence_threshold_gate [of _ _ ascii_decimal px_extractor]
  from t [of example_word_a "\<lparr>m_start = 6, group1 = [112, 120, 45, 49]\<rparr>" example_words] a
  have ga: "confidence_threshold (self_config px_extractor) \<le> rec_score example_word_a"
    by blast
  from t [of example_word_c "\<lparr>m_start = 0, group1 = [112, 120, 45, 51]\<rparr>" example_words] l
  have nc: "(example_word_c, \<lparr>m_start = 0, group1 = [112, 120, 45, 51]\<rparr>)
     \<notin> set (find_candidates ascii_decimal px_extractor example_words)"
    by auto
  from t [of example_word_c "\<lparr>m_start = 0, group1 = [112, 120, 45, 51]\<rparr>" "[example_word_c]"
      "[]" "[]"] l1
  have e: "Extractor_extract ascii_decimal px_extractor [example_word_c] [] = Inr []"
    by blast
  from a ga c s l nc e show ?thesis by blast
qed

text \<open>
  Claim C10. In every returned record the surname and the given name are both empty or
  both non-empty, and when they are non-empty the full name is the surname, one space and
  the given name.
\<close>

theorem extract_name_fields_consistent:
  assumes "Extractor_extract dec ex words fname = Inr rs" and "r \<in> set rs"
  shows "(surname r = [] \<longleftrightarrow> name r = []) \<and>
         (surname r \<noteq> [] \<longrightarrow> full_name r = surname r @ [32] @ name r)"
proof -
  from extract_loop_result [OF assms(1) [unfolded Extractor_extract_def]] assms(2)
  obtain raw where "(surname r, name r, full_name r) = parse_name raw"
    by auto
  then have "parse_name raw = (surname r, name r, full_name r)" by simp
  then show ?thesis by (rule parse_name_shape)
qed

theorem extract_name_fields_consistent_witness:
  "Extractor_extract ascii_decimal px_extractor example_words [] = Inr example_students \<and>
   example_students ! 0 \<in> set example_students \<and>
   surname (example_students ! 0) \<noteq> [] \<and>
   full_name (example_students ! 0) =
     surname (example_students ! 0) @ [32] @ name (example_students ! 0)"
proof -
  have m: "example_students ! 0 \<in> set example_students"
    by (simp add: example_students_def)
  have s: "surname (example_students ! 0) \<noteq> []"
    by (simp add: example_students_def)
  from extract_name_fields_consistent [OF example_extract m] s
  have "full_name (example_students ! 0) =
     surname (example_students ! 0) @ [32] @ name (example_students ! 0)"
    by blast
  with example_extract m s show ?thesis by blast
qed



section \<open>Claims on the spatial search\<close>

lemma accumulate_greedy:
  assumes "\<forall>c\<in>set cs. points (fst c) \<noteq> []"
  shows "accumulate h lx [] cs = Inr (greedy_parts h lx cs)"
proof (cases cs)
  case Nil
  then show ?thesis by (simp add: greedy_parts_def)
next
  case (Cons c rest)
  obtain w1 x1 where c: "c = (w1, x1)" by (cases c)
  from assms Cons c have ne1: "points w1 \<noteq> []" by simp
  show ?thesis
  proof (cases rest)
    case Nil
    with Cons c show ?thesis
      by (simp add: greedy_parts_def Let_def py_min_box [OF ne1] bind_err_def mult.commute)
  next
    case (Cons d far)
    obtain w2 x2 where d: "d = (w2, x2)" by (cases d)
    from assms \<open>cs = c # rest\<close> Cons d have ne2: "points w2 \<noteq> []" by simp
    from \<open>cs = c # rest\<close> Cons c d show ?thesis
      by (simp add: greedy_parts_def Let_def py_min_box [OF ne1] py_min_box [OF ne2]
          bind_err_def mult.commute)
  qed
qed

lemma greedy_parts_length: "length (greedy_parts h lx cs) \<le> 2"
  by (simp add: greedy_parts_def split: list.splits prod.splits)

lemma sort_candidates_sorted: "sorted_wrt (\<lambda>a b. snd b \<le> snd a) (sort_candidates cs)"
proof -
  have "sorted (map (\<lambda>c. - snd c) (sort_candidates cs))"
    unfolding sort_candidates_def by (rule sorted_sort_key)
  then show ?thesis by (simp add: sorted_map)
qed

lemma sort_candidates_mset: "mset (sort_candidates cs) = mset cs"
  by (simp add: sort_candidates_def)

lemmas spatial_word_defs = spatial_name_a_def spatial_name_b_def spatial_id_word_def

lemma spatial_id_geometry:
  "box_vcenter (points spatial_id_word) = 10" "box_height (points spatial_id_word) = 20"
  "box_left (points spatial_id_word) = 120"
  by (simp_all add: spatial_id_word_def box_vcenter_def box_height_def box_left_def)

lemma spatial_name_geometry:
  "box_vcenter (points spatial_name_b) = 10" "box_right (points spatial_name_b) = 110"
  "box_left (points spatial_name_b) = 60"
  by (simp_all add: spatial_name_b_def box_vcenter_def box_right_def box_left_def)

lemma spatial_left_candidates:
  "left_candidates px_extractor spatial_id_word 10 20 120 spatial_words =
     Inr [(spatial_name_a, 50), (spatial_name_b, 110)]"
proof -
  have ne: "spatial_name_a \<noteq> spatial_id_word" "spatial_name_b \<noteq> spatial_id_word"
    by (simp_all add: spatial_word_defs)
  have ex: "self_name_exclusion_pattern px_extractor = Some default_exclusion"
    "student_id_prefix (self_config px_extractor) = [112, 120, 45]"
    by (simp_all add: px_extractor_def default_extractor_def default_config_def)
  have c: "\<not> default_exclusion (content spatial_name_a)"
    "\<not> default_exclusion (content spatial_name_b)"
    "\<not> contains [112, 120, 45] (content spatial_name_a)"
    "\<not> contains [112, 120, 45] (content spatial_name_b)"
    by (simp_all add: spatial_word_defs default_exclusion_def)
  have p: "points spatial_name_a = [(10, 0), (50, 0), (50, 20), (10, 20)]"
    "points spatial_name_b = [(60, 0), (110, 0), (110, 20), (60, 20)]"
    by (simp_all add: spatial_word_defs)
  show ?thesis
    by (simp add: spatial_words_def ne ex c p point_y_def py_max_def bind_err_def Let_def)
qed



text \<open>
  Claim C5. The candidates are ordered by rightmost x, descending, and accumulated from the
  identifier's leftmost x: the accumulation stops at the first gap that exceeds five times
  the identifier's height, otherwise puts the candidate's text in front and moves the
  boundary to the candidate's leftmost x, and never holds more than two texts.
\<close>

theorem spatial_greedy_accumulation:
  assumes "length (points id_word) = 4" and "\<forall>w\<in>set all_words. length (points w) = 4"
  shows "\<exists>candidates.
           left_candidates ex id_word (box_vcenter (points id_word))
             (box_height (points id_word)) (box_left (points id_word)) all_words =
             Inr candidates \<and>
           sorted_wrt (\<lambda>a b. snd b \<le> snd a) (sort_candidates candidates) \<and>
           mset (sort_candidates candidates) = mset candidates \<and>
           accumulate (box_height (points id_word)) (box_left (points id_word)) []
             (sort_candidates candidates) =
             Inr (greedy_parts (box_height (points id_word)) (box_left (points id_word))
                    (sort_candidates candidates)) \<and>
           length (greedy_parts (box_height (points id_word)) (box_left (points id_word))
                    (sort_candidates candidates)) \<le> 2 \<and>
           find_name_at_left ex id_word all_words =
             Inr (join_space
                    (greedy_parts (box_height (points id_word)) (box_left (points id_word))
                       (sort_candidates candidates)))"
proof -
  from assms(2) have wf: "\<forall>w\<in>set all_words. 3 \<le> length (points w)" by simp
  from assms(1) have wfi: "3 \<le> length (points id_word)" by simp
  let ?h = "box_height (points id_word)" and ?lx = "box_left (points id_word)"
  let ?cs = "map (\<lambda>w. (w, box_right (points w)))
       (filter (keeps ex id_word (box_vcenter (points id_word)) ?h ?lx) all_words)"
  have lc: "left_candidates ex id_word (box_vcenter (points id_word)) ?h ?lx all_words = Inr ?cs"
    by (rule left_candidates_eq [OF wf])
  have "\<forall>c\<in>set (sort_candidates ?cs). points (fst c) \<noteq> []"
    using assms(2) by (auto simp: sort_candidates_def)
  then have acc: "accumulate ?h ?lx [] (sort_candidates ?cs) =
      Inr (greedy_parts ?h ?lx (sort_candidates ?cs))"
    by (rule accumulate_greedy)
  have fn: "find_name_at_left ex id_word all_words =
      Inr (join_space (greedy_parts ?h ?lx (sort_candidates ?cs)))"
    by (simp add: find_name_at_left_def id_geometry_eq [OF wfi] lc acc bind_err_def)
  from lc acc fn sort_candidates_sorted [of ?cs] sort_candidates_mset [of ?cs]
    greedy_parts_length [of ?h ?lx "sort_candidates ?cs"]
  show ?thesis by blast
qed

theorem spatial_greedy_accumulation_witness:
  "length (points spatial_id_word) = 4 \<and>
   list_all (\<lambda>w. length (points w) = 4) spatial_words \<and>
   sort_candidates [(spatial_name_a, 50), (spatial_name_b, 110)] =
     [(spatial_name_b, 110), (spatial_name_a, 50)] \<and>
   find_name_at_left px_extractor spatial_id_word spatial_words =
     Inr [23665, 30000, 32, 22826, 37070]"
proof -
  have l: "length (points spatial_id_word) = 4" by (simp add: spatial_id_word_def)
  have wf: "list_all (\<lambda>w. length (points w) = 4) spatial_words"
    by (simp add: spatial_words_def spatial_word_defs)
  then have wf': "\<forall>w\<in>set spatial_words. length (points w) = 4"
    by (simp add: list_all_iff)
  have s: "sort_candidates [(spatial_name_a, 50), (spatial_name_b, 110)] =
     [(spatial_name_b, 110), (spatial_name_a, 50)]"
    by (simp add: sort_candidates_def)
  have g: "greedy_parts 20 120 [(spatial_name_b, 110), (spatial_name_a, 50)] =
     [[23665, 30000], [22826, 37070]]"
  proof -
    have "content spatial_name_a = [23665, 30000]" "content spatial_name_b = [22826, 37070]"
      by (simp_all add: spatial_word_defs)
    then show ?thesis by (simp add: greedy_parts_def spatial_name_geometry)
  qed
  from spatial_greedy_accumulation [OF l wf', of px_extractor]
  have "find_name_at_left px_extractor spatial_id_word spatial_words =
     Inr [23665, 30000, 32, 22826, 37070]"
    by (auto simp: spatial_id_geometry spatial_left_candidates s g)
  with l wf s show ?thesis by blast
qed




section \<open>Claims on the configuration\<close>

lemma id_search_from_empty_prefix:
  "id_search_from dec [] i s =
     (if list_ex dec s
      then Some \<lparr>m_start = i + length (takeWhile (\<lambda>c. \<not> dec c) s),
                 group1 = takeWhile dec (dropWhile (\<lambda>c. \<not> dec c) s)\<rparr>
      else None)"
  by (induction s arbitrary: i) (auto simp: id_match_here_def)

text \<open>
  Claim C7, in the form that holds of the code. An empty identifier prefix or pattern is not rejected: construction
  fails only with \<open>ReError\<close>, for a configured pattern that does not compile, and succeeds
  otherwise whatever the prefix is; with an empty prefix the search pattern is one or more
  digits, so that the first run of digits of a token is its identifier. The counterexample
  builds the extractor from the default configuration and extracts the record \<open>2024\<close>.
\<close>

theorem empty_prefix_accepted:
  "(Extractor_init re_compile config = Inl e \<longrightarrow>
      e = ReError \<and>
      (re_compile (student_id_pattern config) = None \<or>
       (\<exists>p. name_exclusion_pattern config = Some p \<and> p \<noteq> [] \<and> re_compile p = None))) \<and>
   (re_compile (student_id_pattern config) \<noteq> None \<and>
    (case name_exclusion_pattern config of
       None \<Rightarrow> True | Some p \<Rightarrow> p = [] \<or> re_compile p \<noteq> None) \<longrightarrow>
      (\<exists>ex. Extractor_init re_compile config = Inr ex \<and> self_config ex = config)) \<and>
   id_search dec [] s =
     (if list_ex dec s
      then Some \<lparr>m_start = length (takeWhile (\<lambda>c. \<not> dec c) s),
                 group1 = takeWhile dec (dropWhile (\<lambda>c. \<not> dec c) s)\<rparr>
      else None)"
proof -
  have a: "Extractor_init re_compile config = Inl e \<longrightarrow>
      e = ReError \<and>
      (re_compile (student_id_pattern config) = None \<or>
       (\<exists>p. name_exclusion_pattern config = Some p \<and> p \<noteq> [] \<and> re_compile p = None))"
    by (auto simp: Extractor_init_def split: option.splits if_splits)
  have b: "re_compile (student_id_pattern config) \<noteq> None \<and>
    (case name_exclusion_pattern config of
       None \<Rightarrow> True | Some p \<Rightarrow> p = [] \<or> re_compile p \<noteq> None) \<longrightarrow>
      (\<exists>ex. Extractor_init re_compile config = Inr ex \<and> self_config ex = config)"
    by (auto simp: Extractor_init_def split: option.splits)
  have c: "id_search dec [] s =
     (if list_ex dec s
      then Some \<lparr>m_start = length (takeWhile (\<lambda>c. \<not> dec c) s),
                 group1 = takeWhile dec (dropWhile (\<lambda>c. \<not> dec c) s)\<rparr>
      else None)"
    by (simp add: id_search_def id_search_from_empty_prefix)
  from a b c show ?thesis by blast
qed

theorem empty_prefix_accepted_witness:
  "re_compile_default (student_id_pattern default_config) \<noteq> None \<and>
   student_id_prefix default_config = [] \<and>
   Extractor_init re_compile_default default_config = Inr default_extractor \<and>
   id_search ascii_decimal [] [97, 50, 48, 98] = Some \<lparr>m_start = 1, group1 = [50, 48]\<rparr>"
proof -
  have a: "re_compile_default (student_id_pattern default_config) \<noteq> None"
    "student_id_prefix default_config = []"
    by (simp_all add: re_compile_default_def default_config_def)
  have b: "case name_exclusion_pattern default_config of
       None \<Rightarrow> True | Some p \<Rightarrow> p = [] \<or> re_compile_default p \<noteq> None"
    by (simp add: re_compile_default_def default_config_def)
  note t = empty_prefix_accepted [of re_compile_default default_config _ ascii_decimal
      "[97, 50, 48, 98]"]
  from t a b obtain ex where "Extractor_init re_compile_default default_config = Inr ex"
    by blast
  moreover have "Extractor_init re_compile_default default_config = Inr default_extractor"
    by (simp add: Extractor_init_def re_compile_default_def default_config_def
        default_extractor_def default_exclusion_source_def)
  moreover from t have "id_search ascii_decimal [] [97, 50, 48, 98] =
      Some \<lparr>m_start = 1, group1 = [50, 48]\<rparr>"
    by (simp add: ascii_decimal_def)
  ultimately show ?thesis using a by blast
qed

theorem empty_prefix_counterexample:
  "student_id_prefix default_config = [] \<and> student_id_pattern default_config = [] \<and>
   Extractor_init re_compile_default default_config = Inr default_extractor \<and>
   Extractor_extract ascii_decimal default_extractor [digits_word] [] =
     Inr [\<lparr>student_id_full = [50, 48, 50, 52], student_id_num = [50, 48, 50, 52],
           surname = [], name = [], full_name = [], confidence = 0.9,
           file_name = Some []\<rparr>]"
proof -
  have a: "student_id_prefix default_config = []" "student_id_pattern default_config = []"
    by (simp_all add: default_config_def)
  have i: "Extractor_init re_compile_default default_config = Inr default_extractor"
    by (simp add: Extractor_init_def re_compile_default_def default_config_def
        default_extractor_def default_exclusion_source_def)
  have s: "id_search ascii_decimal [] (content digits_word) =
      Some \<lparr>m_start = 0, group1 = [50, 48, 50, 52]\<rparr>"
    by (simp add: digits_word_def id_search_def id_match_here_def ascii_decimal_def)
  have r: "raw_name default_extractor digits_word \<lparr>m_start = 0, group1 = [50, 48, 50, 52]\<rparr>
      [digits_word] = Inr []"
    by (simp add: raw_name_def clean_pre_def strip_def Let_def find_name_at_left_def
        id_geometry_def point_y_def py_min_def bind_err_def digits_word_def sort_candidates_def)
  have p: "parse_name [] = ([], [], [])"
    by (simp add: parse_name_def clean_name_def strip_def)
  have c: "student_id_prefix (self_config default_extractor) = []"
    "confidence_threshold (self_config default_extractor) = 0.5"
    "rec_score digits_word = 0.9"
    by (simp_all add: default_extractor_def default_config_def digits_word_def)
  have e: "Extractor_extract ascii_decimal default_extractor [digits_word] [] =
     Inr [\<lparr>student_id_full = [50, 48, 50, 52], student_id_num = [50, 48, 50, 52],
           surname = [], name = [], full_name = [], confidence = 0.9,
           file_name = Some []\<rparr>]"
    by (simp add: Extractor_extract_def c s r p bind_err_def Let_def ascii_decimal_def)
  from a i e show ?thesis by blast
qed

end
